theory Spec2Isabelle
  imports Main "HOL-Library.Word"
begin

unbundle bit_operations_syntax

section \<open>Data model of \<open>arena::Arena\<close>\<close>

text \<open>
  \<open>std::size_t\<close> is a 64-bit unsigned integer; \<open>+\<close>, \<open>-\<close> and \<open>*\<close> wrap around.
  Addresses are values of the same type, as the code obtains them with
  \<open>reinterpret_cast<std::size_t>\<close>. The null pointer is the address 0.
\<close>

type_synonym size_t = "64 word"

text \<open>\<open>struct Mark { std::size_t offset = 0; }\<close>\<close>

record Mark =
  offset :: size_t

text \<open>
  The members of \<open>class Arena\<close>: \<open>std::vector<byte> buffer_\<close> and
  \<open>std::size_t offset_\<close> (the field \<open>offset'\<close> here). Of the vector the code
  reads only \<open>data()\<close> and \<open>size()\<close>; the bytes stored are never read or written
  by the arena itself, so the vector is its address and its length.
\<close>

record Arena =
  buffer_data :: size_t
  buffer_size :: size_t
  offset' :: size_t

text \<open>
  Moves compare the addresses of two objects (\<open>this != &other\<close>) and a
  \<open>Scope\<close> holds a pointer to its arena, so these operations act on a store of
  objects. \<open>class Scope\<close> has the members \<open>Arena *a_\<close> (here \<open>a_ptr\<close>,
  \<open>None\<close> for \<open>nullptr\<close>) and \<open>Mark m_\<close> (here \<open>m_mark\<close>).
\<close>

type_synonym addr = nat

record Scope =
  a_ptr :: "addr option"
  m_mark :: Mark

record world =
  arenas :: "addr \<Rightarrow> Arena"
  scopes :: "addr \<Rightarrow> Scope"

text \<open>
  The exceptions of the standard library that matter here. The code throws
  \<open>std::bad_alloc\<close> only; \<open>std::invalid_argument\<close> is what an invalid-argument
  failure would be.
\<close>

datatype exception = bad_alloc | invalid_argument

section \<open>Construction and queries\<close>

text \<open>
  \<open>explicit Arena(std::size_t capacity_bytes) : buffer_(capacity_bytes), offset_(0)\<close>.
  The address of the storage is chosen by the allocator of the vector: it is the
  parameter \<open>data\<close>.
\<close>

definition Arena_ctor :: "size_t \<Rightarrow> size_t \<Rightarrow> Arena" where
  "Arena_ctor data capacity_bytes =
     \<lparr>buffer_data = data, buffer_size = capacity_bytes, offset' = 0\<rparr>"

definition capacity :: "Arena \<Rightarrow> size_t" where
  "capacity a = buffer_size a"

definition used :: "Arena \<Rightarrow> size_t" where
  "used a = offset' a"

definition remaining :: "Arena \<Rightarrow> size_t" where
  "remaining a = capacity a - used a"

definition reset :: "Arena \<Rightarrow> Arena" where
  "reset a = a\<lparr>offset' := 0\<rparr>"

section \<open>Allocation\<close>

text \<open>\<open>return x != 0 && (x & (x - 1)) == 0;\<close>\<close>

definition is_power_of_two :: "size_t \<Rightarrow> bool" where
  "is_power_of_two x = (x \<noteq> 0 \<and> x AND (x - 1) = 0)"

text \<open>\<open>return (value + (alignment - 1)) & ~(alignment - 1);\<close>\<close>

definition align_up :: "size_t \<Rightarrow> size_t \<Rightarrow> size_t" where
  "align_up v alignment = (v + (alignment - 1)) AND NOT (alignment - 1)"

text \<open>
  \<open>try_allocate\<close> returns the pointer (0 for \<open>nullptr\<close>) and the arena after the
  call. It is \<open>noexcept\<close> and has no \<open>throw\<close>: its result has no exception.
\<close>

definition try_allocate :: "Arena \<Rightarrow> size_t \<Rightarrow> size_t \<Rightarrow> size_t \<times> Arena" where
  "try_allocate a sz0 alignment =
     (let sz = (if sz0 = 0 then 1 else sz0) in
      if \<not> is_power_of_two alignment then (0, a)
      else
        let base = buffer_data a;
            current = base + offset' a;
            aligned = align_up current alignment;
            new_offset = (aligned - base) + sz
        in if new_offset > buffer_size a then (0, a)
           else (aligned, a\<lparr>offset' := new_offset\<rparr>))"

text \<open>
  \<open>allocate\<close>: \<open>void *p = try_allocate(size, alignment); if (!p) throw std::bad_alloc{};\<close>
  The result is the exception or the pointer, with the arena as the call leaves it.
\<close>

definition allocate :: "Arena \<Rightarrow> size_t \<Rightarrow> size_t \<Rightarrow> (exception + size_t) \<times> Arena" where
  "allocate a sz alignment =
     (let (p, a') = try_allocate a sz alignment in
      if p = 0 then (Inl bad_alloc, a') else (Inr p, a'))"

text \<open>
  \<open>make<T>\<close> allocates \<open>sizeof(T)\<close> bytes aligned to \<open>alignof(T)\<close>; the type is
  given by these two numbers. The placement \<open>new\<close> that follows writes into the
  block and does not touch the arena.
\<close>

definition make :: "Arena \<Rightarrow> size_t \<Rightarrow> size_t \<Rightarrow> (exception + size_t) \<times> Arena" where
  "make a sizeof_T alignof_T = allocate a sizeof_T alignof_T"

text \<open>
  \<open>make_array<T>(count)\<close>: \<open>if (count == 0) return nullptr;\<close> then
  \<open>allocate(sizeof(T) * count, alignof(T))\<close>, the product taken in \<open>std::size_t\<close>.
\<close>

definition make_array :: "Arena \<Rightarrow> size_t \<Rightarrow> size_t \<Rightarrow> size_t \<Rightarrow> (exception + size_t) \<times> Arena" where
  "make_array a sizeof_T alignof_T count =
     (if count = 0 then (Inr 0, a)
      else allocate a (sizeof_T * count) alignof_T)"

text \<open>\<open>owns\<close>: \<open>b = buffer_.data(); e = b + buffer_.size(); return x >= b && x < e;\<close>\<close>

definition owns :: "Arena \<Rightarrow> size_t \<Rightarrow> bool" where
  "owns a p =
     (let b = buffer_data a;
          e = b + buffer_size a;
          x = p
      in x \<ge> b \<and> x < e)"

section \<open>Checkpoints\<close>

definition mark :: "Arena \<Rightarrow> Mark" where
  "mark a = \<lparr>offset = offset' a\<rparr>"

text \<open>\<open>if (m.offset <= buffer_.size()) offset_ = m.offset;\<close>\<close>

definition rewind :: "Arena \<Rightarrow> Mark \<Rightarrow> Arena" where
  "rewind a m = (if offset m \<le> buffer_size a then a\<lparr>offset' := offset m\<rparr> else a)"

section \<open>Objects: moves and scopes\<close>

text \<open>
  \<open>std::move(other.buffer_)\<close> into a vector hands the storage over and leaves the
  source vector empty: \<open>data()\<close> null and \<open>size()\<close> zero.
\<close>

definition moved_from_buffer :: "Arena \<Rightarrow> Arena" where
  "moved_from_buffer a = a\<lparr>buffer_data := 0, buffer_size := 0\<rparr>"

text \<open>
  \<open>Arena(Arena &&other) : buffer_(std::move(other.buffer_)), offset_(other.offset_)
  { other.offset_ = 0; }\<close>. The new object \<open>this\<close> is not \<open>other\<close>.
\<close>

definition Arena_move_ctor :: "world \<Rightarrow> addr \<Rightarrow> addr \<Rightarrow> world" where
  "Arena_move_ctor w this other =
     (let src = arenas w other;
          dst = \<lparr>buffer_data = buffer_data src, buffer_size = buffer_size src,
                 offset' = offset' src\<rparr>;
          src' = (moved_from_buffer src)\<lparr>offset' := 0\<rparr>
      in w\<lparr>arenas := (arenas w)(other := src', this := dst)\<rparr>)"

text \<open>
  \<open>operator=(Arena &&other)\<close>: \<open>if (this != &other) { buffer_ =
  std::move(other.buffer_); offset_ = other.offset_; other.offset_ = 0; }\<close>
\<close>

definition Arena_move_assign :: "world \<Rightarrow> addr \<Rightarrow> addr \<Rightarrow> world" where
  "Arena_move_assign w this other =
     (if this \<noteq> other then
        let src = arenas w other;
            dst = (arenas w this)\<lparr>buffer_data := buffer_data src,
                    buffer_size := buffer_size src, offset' := offset' src\<rparr>;
            src' = (moved_from_buffer src)\<lparr>offset' := 0\<rparr>
        in w\<lparr>arenas := (arenas w)(this := dst, other := src')\<rparr>
      else w)"

text \<open>A member function of the arena at address \<open>a\<close>, called through the store.\<close>

definition at_arena :: "world \<Rightarrow> addr \<Rightarrow> (Arena \<Rightarrow> Arena) \<Rightarrow> world" where
  "at_arena w a f = w\<lparr>arenas := (arenas w)(a := f (arenas w a))\<rparr>"

text \<open>\<open>explicit Scope(Arena &a) : a_(&a), m_(a.mark())\<close>\<close>

definition Scope_ctor :: "world \<Rightarrow> addr \<Rightarrow> addr \<Rightarrow> world" where
  "Scope_ctor w this a =
     w\<lparr>scopes := (scopes w)(this := \<lparr>a_ptr = Some a, m_mark = mark (arenas w a)\<rparr>)\<rparr>"

text \<open>\<open>Scope(Scope &&other) : a_(other.a_), m_(other.m_) { other.a_ = nullptr; }\<close>\<close>

definition Scope_move_ctor :: "world \<Rightarrow> addr \<Rightarrow> addr \<Rightarrow> world" where
  "Scope_move_ctor w this other =
     (let src = scopes w other
      in w\<lparr>scopes := (scopes w)(other := src\<lparr>a_ptr := None\<rparr>,
                                     this := \<lparr>a_ptr = a_ptr src, m_mark = m_mark src\<rparr>)\<rparr>)"

text \<open>\<open>~Scope() { if (a_) a_->rewind(m_); }\<close>\<close>

definition Scope_dtor :: "world \<Rightarrow> addr \<Rightarrow> world" where
  "Scope_dtor w this =
     (case a_ptr (scopes w this) of
        Some a \<Rightarrow> at_arena w a (\<lambda>x. rewind x (m_mark (scopes w this)))
      | None \<Rightarrow> w)"

text \<open>
  \<open>operator=(Scope &&other)\<close>: \<open>if (this != &other) { if (a_) a_->rewind(m_);
  a_ = other.a_; m_ = other.m_; other.a_ = nullptr; }\<close>
\<close>

definition Scope_move_assign :: "world \<Rightarrow> addr \<Rightarrow> addr \<Rightarrow> world" where
  "Scope_move_assign w this other =
     (if this \<noteq> other then
        let dst = scopes w this;
            w1 = (case a_ptr dst of
                    Some a \<Rightarrow> at_arena w a (\<lambda>x. rewind x (m_mark dst))
                  | None \<Rightarrow> w);
            src = scopes w1 other
        in w1\<lparr>scopes := (scopes w1)(this := dst\<lparr>a_ptr := a_ptr src, m_mark := m_mark src\<rparr>,
                                         other := src\<lparr>a_ptr := None\<rparr>)\<rparr>
      else w)"

section \<open>Sequences of calls on one arena\<close>

text \<open>
  A call of one of the member functions that change the arena, with its arguments;
  \<open>call\<close> gives the arena as the call leaves it, whether it returns or throws.
\<close>

datatype op =
    TryAllocate size_t size_t
  | Allocate size_t size_t
  | Make size_t size_t
  | MakeArray size_t size_t size_t
  | Rewind Mark
  | Reset

fun call :: "Arena \<Rightarrow> op \<Rightarrow> Arena" where
  "call a (TryAllocate sz al) = snd (try_allocate a sz al)"
| "call a (Allocate sz al) = snd (allocate a sz al)"
| "call a (Make sizeof_T alignof_T) = snd (make a sizeof_T alignof_T)"
| "call a (MakeArray sizeof_T alignof_T n) = snd (make_array a sizeof_T alignof_T n)"
| "call a (Rewind m) = rewind a m"
| "call a Reset = reset a"

definition calls :: "Arena \<Rightarrow> op list \<Rightarrow> Arena" where
  "calls a ops = foldl call a ops"

text \<open>The invariant of the data model: the offset never exceeds the capacity.\<close>

definition invariant :: "Arena \<Rightarrow> bool" where
  "invariant a = (offset' a \<le> buffer_size a)"

text \<open>
  Where the storage lies: it ends in the lower half of the address space, and storage
  of positive length does not start at the null address.
\<close>

definition placed :: "Arena \<Rightarrow> bool" where
  "placed a = (unat (buffer_data a) + unat (buffer_size a) \<le> 2 ^ 63
               \<and> (buffer_size a \<noteq> 0 \<longrightarrow> buffer_data a \<noteq> 0))"

text \<open>
  Rounding up to the nearest multiple, on the natural numbers, as the alignment
  algorithm is described.
\<close>

definition round_up :: "nat \<Rightarrow> nat \<Rightarrow> nat" where
  "round_up n k = ((n + k - 1) div k) * k"

section \<open>The quantities of the alignment algorithm\<close>

text \<open>
  The locals \<open>aligned\<close> and \<open>new_offset\<close> of \<open>try_allocate\<close>, as functions of the
  arena and the arguments.
\<close>

definition aligned_address :: "Arena \<Rightarrow> size_t \<Rightarrow> size_t" where
  "aligned_address a alignment = align_up (buffer_data a + offset' a) alignment"

definition new_offset :: "Arena \<Rightarrow> size_t \<Rightarrow> size_t \<Rightarrow> size_t" where
  "new_offset a sz alignment =
     (aligned_address a alignment - buffer_data a) + (if sz = 0 then 1 else sz)"

text \<open>
  The same two quantities as the alignment algorithm is described, on the natural
  numbers, where nothing wraps: the next free address rounded up to the nearest multiple
  of the alignment, and \<open>(aligned_address - base) + size\<close> with a size of 0 counted
  as 1.
\<close>

definition spec_aligned_address :: "Arena \<Rightarrow> size_t \<Rightarrow> nat" where
  "spec_aligned_address a alignment =
     round_up (unat (buffer_data a) + unat (offset' a)) (unat alignment)"

definition spec_new_offset :: "Arena \<Rightarrow> size_t \<Rightarrow> size_t \<Rightarrow> nat" where
  "spec_new_offset a sz alignment =
     (spec_aligned_address a alignment - unat (buffer_data a)) + max (unat sz) 1"

section \<open>Example objects\<close>

text \<open>
  \<open>Arena a(8)\<close> with its storage at address 65536, after \<open>a.allocate(8, 1)\<close>; and a
  store whose arena 1 is \<open>Arena(16)\<close> after \<open>allocate(8, 1)\<close>, every other arena
  default-constructed and every scope inert.
\<close>

definition full_arena :: Arena where
  "full_arena = snd (allocate (Arena_ctor 65536 8) 8 1)"

definition example_world :: world where
  "example_world =
     \<lparr>arenas = (\<lambda>_. Arena_ctor 0 0)(1 := snd (allocate (Arena_ctor 65536 16) 8 1)),
      scopes = (\<lambda>_. \<lparr>a_ptr = None, m_mark = \<lparr>offset = 0\<rparr>\<rparr>)\<rparr>"

text \<open>The same store after \<open>Scope scope(a)\<close> at address 6 on its arena 1.\<close>

definition scoped_world :: world where
  "scoped_world = Scope_ctor example_world 6 1"

section \<open>Powers of two and rounding up\<close>

lemma nat_and_pred_zero:
  "0 < (n::nat) \<Longrightarrow> n AND (n - 1) = 0 \<Longrightarrow> \<exists>k. n = 2 ^ k"
proof (induction n rule: less_induct)
  case (less n)
  have rec: "n AND (n - 1) = of_bool (odd n \<and> odd (n - 1)) + 2 * (n div 2 AND (n - 1) div 2)"
    by (rule and_nat_rec)
  show ?case
  proof (cases "even n")
    case True
    then obtain m where m: "n = 2 * m" by (auto elim: evenE)
    with less.prems have m0: "0 < m" by simp
    have "(n - 1) div 2 = m - 1" using m m0 by simp
    moreover have "n div 2 = m" using m by simp
    ultimately have "n AND (n - 1) = 2 * (m AND (m - 1))"
      using rec True by simp
    with less.prems have "m AND (m - 1) = 0" by simp
    moreover have "m < n" using m m0 by simp
    ultimately obtain k where "m = 2 ^ k" using less.IH m0 by blast
    then have "n = 2 ^ Suc k" using m by simp
    then show ?thesis by blast
  next
    case False
    then obtain m where m: "n = 2 * m + 1" by (auto elim: oddE)
    then have "n AND (n - 1) = 2 * m" using rec False by simp
    with less.prems have "m = 0" by simp
    with m have "n = 2 ^ 0" by simp
    then show ?thesis by blast
  qed
qed

lemma is_power_of_two_exp:
  assumes "is_power_of_two x"
  shows "\<exists>k<64. x = 2 ^ k"
proof -
  from assms have x0: "x \<noteq> 0" and a: "x AND (x - 1) = 0"
    by (simp_all add: is_power_of_two_def)
  have "unat x AND unat (x - 1) = unat (x AND (x - 1))"
    by (simp add: unsigned_and_eq)
  with a x0 have "unat x AND (unat x - 1) = 0"
    by (simp add: unat_minus_one)
  moreover have "0 < unat x" using x0 by (simp add: unat_gt_0)
  ultimately obtain k where k: "unat x = 2 ^ k"
    using nat_and_pred_zero by blast
  have "unat x < 2 ^ LENGTH(64)" by (rule unsigned_less)
  then have "(2::nat) ^ k < 2 ^ 64" using k by simp
  then have "k < 64" by (rule power_less_imp_less_exp [rotated]) simp
  moreover have "x = 2 ^ k"
  proof -
    have "x = word_of_nat (unat x)" by simp
    also have "\<dots> = 2 ^ k" by (simp only: k) simp
    finally show ?thesis .
  qed
  ultimately show ?thesis by blast
qed


lemma and_not_mask_unat:
  "unat ((x::size_t) AND NOT (mask k)) = unat x - unat x mod 2 ^ k"
proof -
  have "x AND NOT (mask k) = push_bit k (drop_bit k x)"
    by (rule bit_eqI) (auto simp: bit_simps)
  moreover have "push_bit k (drop_bit k x) + take_bit k x = x"
    by (rule bits_ident)
  ultimately have eq: "x AND NOT (mask k) = x - take_bit k x"
    by (simp add: algebra_simps)
  have "unat (take_bit k x) = take_bit k (unat x)"
    by (rule unsigned_take_bit_eq)
  then have ut: "unat (take_bit k x) = unat x mod 2 ^ k"
    by (simp only: take_bit_eq_mod)
  have le: "take_bit k x \<le> x"
    by (simp only: word_le_nat_alt ut mod_less_eq_dividend)
  have "unat (x - take_bit k x) = unat x - unat (take_bit k x)"
    using le by (simp add: unat_sub)
  then show ?thesis
    by (simp only: eq ut)
qed

lemma unat_exp64:
  assumes "k < 64"
  shows "unat ((2::size_t) ^ k) = 2 ^ k"
proof -
  have lt: "(2::nat) ^ k < 2 ^ 64"
    using assms by (simp only: power_strict_increasing_iff one_less_numeral_iff semiring_norm)
  have "unat ((2::size_t) ^ k) = unat (word_of_nat (2 ^ k) :: size_t)"
    by simp
  also have "\<dots> = 2 ^ k mod 2 ^ LENGTH(64)"
    by (simp only: unat_of_nat)
  also have "\<dots> = 2 ^ k"
    using lt by simp
  finally show ?thesis .
qed

lemma unat_mask64:
  assumes "k < 64"
  shows "unat (mask k :: size_t) = 2 ^ k - 1"
proof -
  have "(2::size_t) ^ k \<noteq> 0"
    using assms by (simp add: exp_eq_zero_iff)
  then have "unat ((2::size_t) ^ k - 1) = unat ((2::size_t) ^ k) - 1"
    by (rule unat_minus_one)
  then show ?thesis
    using assms by (simp add: mask_eq_exp_minus_1 unat_exp64)
qed

lemma align_up_unat:
  assumes k: "k < 64" and nw: "unat v + 2 ^ k - 1 < 2 ^ 64"
  shows "unat (align_up v (2 ^ k)) = round_up (unat v) (2 ^ k)"
proof -
  have m: "(2::size_t) ^ k - 1 = mask k" by (simp add: mask_eq_exp_minus_1)
  have um: "unat (mask k :: size_t) = 2 ^ k - 1"
    using k by (rule unat_mask64)
  have "unat (v + mask k) = unat v + unat (mask k :: size_t)"
    using nw um by (simp add: unat_add_lem [THEN iffD1])
  then have s: "unat (v + mask k) = unat v + 2 ^ k - 1"
    using um by simp
  have "unat (align_up v (2 ^ k)) = unat (v + mask k) - unat (v + mask k) mod 2 ^ k"
    by (simp add: align_up_def m and_not_mask_unat)
  also have "\<dots> = (unat v + 2 ^ k - 1) div 2 ^ k * 2 ^ k"
    by (simp add: s minus_mod_eq_div_mult)
  finally show ?thesis by (simp add: round_up_def)
qed

lemma round_up_props:
  assumes "0 < k"
  shows "n \<le> round_up n k" and "round_up n k < n + k" and "k dvd round_up n k"
    and "\<And>m. k dvd m \<Longrightarrow> n \<le> m \<Longrightarrow> round_up n k \<le> m"
proof -
  let ?q = "(n + k - 1) div k"
  have a: "?q * k + (n + k - 1) mod k = n + k - 1" by simp
  have b: "(n + k - 1) mod k < k" using assms by simp
  show "n \<le> round_up n k" using a b unfolding round_up_def by linarith
  show "round_up n k < n + k" using a assms unfolding round_up_def by linarith
  show "k dvd round_up n k" by (simp add: round_up_def)
  show "round_up n k \<le> m" if "k dvd m" "n \<le> m" for m
  proof -
    from that obtain j where j: "m = k * j" by (auto elim: dvdE)
    have "n + k - 1 < k * j + k" using that j assms by simp
    then have "n + k - 1 < (j + 1) * k" by (simp add: algebra_simps)
    then have "?q < j + 1" using assms by (simp add: div_less_iff_less_mult)
    then have "?q \<le> j" by simp
    then have "?q * k \<le> j * k" by simp
    then show ?thesis by (simp add: round_up_def j mult.commute)
  qed
qed

lemma round_up_fits:
  assumes k: "k \<le> 64" and f: "round_up v (2 ^ k) < 2 ^ 64"
  shows "v + 2 ^ k - 1 < 2 ^ 64"
proof -
  define q where "q = (v + 2 ^ k - 1) div 2 ^ k"
  have r: "round_up v (2 ^ k) = q * 2 ^ k" by (simp add: round_up_def q_def)
  have e: "(2::nat) ^ 64 = 2 ^ (64 - k) * 2 ^ k"
    using k by (simp add: power_add [symmetric])
  from f have "q * 2 ^ k < 2 ^ (64 - k) * 2 ^ k" by (simp only: r e)
  then have "q < 2 ^ (64 - k)" by simp
  then have "q + 1 \<le> 2 ^ (64 - k)" by simp
  then have "(q + 1) * 2 ^ k \<le> 2 ^ (64 - k) * 2 ^ k" by (rule mult_le_mono1)
  then have le: "q * 2 ^ k + 2 ^ k \<le> 2 ^ 64" by (simp only: e) (simp add: algebra_simps)
  have "v + 2 ^ k - 1 = q * 2 ^ k + (v + 2 ^ k - 1) mod 2 ^ k"
    unfolding q_def by (rule div_mult_mod_eq [symmetric])
  moreover have "(v + 2 ^ k - 1) mod 2 ^ k < (2::nat) ^ k" by simp
  ultimately show ?thesis using le by linarith
qed

section \<open>Allocation\<close>

lemmas arena_defs = try_allocate_def allocate_def Arena_ctor_def is_power_of_two_def
  align_up_def make_def make_array_def owns_def used_def capacity_def reset_def
  rewind_def mark_def invariant_def calls_def

lemma try_allocate_cases:
  "try_allocate a n al =
     (if \<not> is_power_of_two al then (0, a)
      else if buffer_size a < new_offset a n al then (0, a)
      else (aligned_address a al, a\<lparr>offset' := new_offset a n al\<rparr>))"
  by (simp add: try_allocate_def new_offset_def aligned_address_def Let_def)

lemma allocate_cases:
  "allocate a n al =
     (if fst (try_allocate a n al) = 0 then (Inl bad_alloc, snd (try_allocate a n al))
      else (Inr (fst (try_allocate a n al)), snd (try_allocate a n al)))"
  by (simp add: allocate_def split: prod.split)

lemma unat_current:
  assumes "placed a" and "invariant a"
  shows "unat (buffer_data a + offset' a) = unat (buffer_data a) + unat (offset' a)"
    and "unat (buffer_data a) + unat (offset' a) \<le> 2 ^ 63"
proof -
  have le: "unat (offset' a) \<le> unat (buffer_size a)"
    using assms(2) by (simp add: invariant_def word_le_nat_alt)
  with assms(1) show b: "unat (buffer_data a) + unat (offset' a) \<le> 2 ^ 63"
    by (simp add: placed_def)
  then have "unat (buffer_data a) + unat (offset' a) < 2 ^ LENGTH(64)"
    by simp
  then show "unat (buffer_data a + offset' a) = unat (buffer_data a) + unat (offset' a)"
    by (simp only: unat_add_lem [THEN iffD1])
qed

lemma unat_aligned_address:
  assumes "placed a" and "invariant a" and "is_power_of_two al"
  shows "unat (aligned_address a al) =
           round_up (unat (buffer_data a) + unat (offset' a)) (unat al)"
proof -
  from assms(3) obtain k where k: "k < 64" and al: "al = 2 ^ k"
    using is_power_of_two_exp by blast
  have ual: "unat al = 2 ^ k" using k al by (simp only: unat_exp64)
  have cur: "unat (buffer_data a + offset' a) = unat (buffer_data a) + unat (offset' a)"
    and b: "unat (buffer_data a) + unat (offset' a) \<le> 2 ^ 63"
    using unat_current [OF assms(1,2)] by blast+
  have "k \<le> 63" using k by simp
  then have "(2::nat) ^ k \<le> 2 ^ 63"
    by (simp only: power_increasing_iff one_less_numeral_iff semiring_norm)
  with b have "unat (buffer_data a + offset' a) + 2 ^ k - 1 < 2 ^ 64"
    by (simp add: cur)
  then have "unat (align_up (buffer_data a + offset' a) (2 ^ k)) =
               round_up (unat (buffer_data a + offset' a)) (2 ^ k)"
    using k by (simp only: align_up_unat)
  then show ?thesis
    by (simp only: aligned_address_def al [symmetric] ual [symmetric] cur)
qed

lemma is_power_of_two_pos: "is_power_of_two al \<Longrightarrow> 0 < unat al"
  by (simp add: is_power_of_two_def unat_gt_0)

text \<open>
  Where the aligned address and the new offset fit \<open>std::size_t\<close>, the code computes
  them as described.
\<close>

lemma unat_aligned_address_fits:
  assumes p2: "is_power_of_two al" and f: "spec_aligned_address a al < 2 ^ 64"
  shows "unat (aligned_address a al) = spec_aligned_address a al"
proof -
  from p2 obtain k where k: "k < 64" and al: "al = 2 ^ k"
    using is_power_of_two_exp by blast
  have ual: "unat al = 2 ^ k" using k al by (simp only: unat_exp64)
  have pos: "0 < unat al" using p2 by (rule is_power_of_two_pos)
  have "unat (buffer_data a) + unat (offset' a) \<le> spec_aligned_address a al"
    unfolding spec_aligned_address_def using pos by (rule round_up_props(1))
  with f have "unat (buffer_data a) + unat (offset' a) < 2 ^ LENGTH(64)" by simp
  then have cur: "unat (buffer_data a + offset' a) = unat (buffer_data a) + unat (offset' a)"
    by (simp only: unat_add_lem [THEN iffD1])
  have "round_up (unat (buffer_data a + offset' a)) (2 ^ k) < 2 ^ 64"
    using f by (simp only: spec_aligned_address_def ual cur)
  moreover have "k \<le> 64" using k by simp
  ultimately have "unat (buffer_data a + offset' a) + 2 ^ k - 1 < 2 ^ 64"
    by (simp only: round_up_fits)
  then have "unat (align_up (buffer_data a + offset' a) (2 ^ k)) =
               round_up (unat (buffer_data a + offset' a)) (2 ^ k)"
    using k by (simp only: align_up_unat)
  then show ?thesis
    by (simp only: aligned_address_def spec_aligned_address_def al [symmetric]
        ual [symmetric] cur)
qed

lemma unat_new_offset_fits:
  assumes p2: "is_power_of_two al" and f: "spec_aligned_address a al < 2 ^ 64"
    and g: "spec_new_offset a n al < 2 ^ 64"
  shows "unat (new_offset a n al) = spec_new_offset a n al"
proof -
  have ua: "unat (aligned_address a al) = spec_aligned_address a al"
    using p2 f by (rule unat_aligned_address_fits)
  have pos: "0 < unat al" using p2 by (rule is_power_of_two_pos)
  have "unat (buffer_data a) + unat (offset' a) \<le> spec_aligned_address a al"
    unfolding spec_aligned_address_def using pos by (rule round_up_props(1))
  then have le: "buffer_data a \<le> aligned_address a al"
    by (simp add: word_le_nat_alt ua)
  have sub: "unat (aligned_address a al - buffer_data a)
               = spec_aligned_address a al - unat (buffer_data a)"
    using le by (simp add: unat_sub ua)
  have sz: "unat (if n = 0 then 1 else n) = max (unat n) 1"
  proof (cases "n = 0")
    case True
    then show ?thesis by simp
  next
    case False
    then have "0 < unat n" by (simp add: unat_gt_0)
    then show ?thesis using False by (simp add: max_def)
  qed
  have "unat (aligned_address a al - buffer_data a) + unat (if n = 0 then 1 else n)
          < 2 ^ LENGTH(64)"
    using g by (simp only: sub sz spec_new_offset_def) simp
  then have "unat (new_offset a n al)
      = unat (aligned_address a al - buffer_data a) + unat (if n = 0 then 1 else n)"
    unfolding new_offset_def by (simp only: unat_add_lem [THEN iffD1])
  then show ?thesis
    by (simp only: sub sz spec_new_offset_def)
qed

lemma null_result_keeps_arena:
  assumes "placed a" and "invariant a" and "is_power_of_two al"
    and z: "aligned_address a al = 0" and fit: "new_offset a n al \<le> buffer_size a"
  shows "a\<lparr>offset' := new_offset a n al\<rparr> = a"
proof -
  have "unat (buffer_data a) + unat (offset' a)
          \<le> round_up (unat (buffer_data a) + unat (offset' a)) (unat al)"
    using is_power_of_two_pos [OF assms(3)] by (rule round_up_props(1))
  also have "\<dots> = unat (aligned_address a al)"
    using assms(1-3) by (simp only: unat_aligned_address)
  also have "\<dots> = 0" by (simp add: z)
  finally have "unat (buffer_data a) = 0" and o: "unat (offset' a) = 0" by simp_all
  then have "buffer_data a = 0" by (simp add: unat_0_iff)
  with assms(1) have "buffer_size a = 0" by (auto simp: placed_def)
  with fit have "new_offset a n al = 0" by simp
  moreover have "offset' a = 0" using o by (simp add: unat_0_iff)
  ultimately show ?thesis by simp
qed

text \<open>
  What the two tests of \<open>try_allocate\<close> give. \<open>try_allocate\<close> is \<open>noexcept\<close>: its
  result is a pointer and an arena, never an exception. It returns the null pointer
  when the alignment is not a power of two and when \<open>new_offset\<close>, as the code
  computes it in \<open>std::size_t\<close>, exceeds the capacity; and for an arena in the lower
  half of the address space, whenever \<open>try_allocate\<close> returns null or \<open>allocate\<close>
  throws, the arena, and so its offset, is as before the call.
\<close>

theorem failed_allocation_keeps_offset:
  assumes "placed a" and "invariant a"
  shows "(\<not> is_power_of_two al \<longrightarrow> fst (try_allocate a n al) = 0)
       \<and> (buffer_size a < new_offset a n al \<longrightarrow> fst (try_allocate a n al) = 0)
       \<and> (fst (try_allocate a n al) = 0 \<longrightarrow> snd (try_allocate a n al) = a)
       \<and> (\<forall>e. fst (allocate a n al) = Inl e \<longrightarrow> snd (allocate a n al) = a)"
proof -
  have keep: "snd (try_allocate a n al) = a" if "fst (try_allocate a n al) = 0"
  proof (cases "\<not> is_power_of_two al \<or> buffer_size a < new_offset a n al")
    case True
    then show ?thesis by (auto simp: try_allocate_cases)
  next
    case False
    then have p: "is_power_of_two al" and fit: "new_offset a n al \<le> buffer_size a"
      by (simp_all add: not_less)
    with that have "aligned_address a al = 0"
      by (simp add: try_allocate_cases not_less [symmetric])
    then have "a\<lparr>offset' := new_offset a n al\<rparr> = a"
      using assms p fit by (simp only: null_result_keeps_arena)
    then show ?thesis using p fit by (simp add: try_allocate_cases not_less [symmetric])
  qed
  have "fst (try_allocate a n al) = 0" if "\<not> is_power_of_two al"
    using that by (simp add: try_allocate_cases)
  moreover have "fst (try_allocate a n al) = 0" if "buffer_size a < new_offset a n al"
    using that by (simp add: try_allocate_cases)
  moreover have "snd (allocate a n al) = a" if "fst (allocate a n al) = Inl e" for e
  proof -
    from that have "fst (try_allocate a n al) = 0"
      by (simp add: allocate_cases split: if_splits)
    then show ?thesis using keep by (simp add: allocate_cases)
  qed
  ultimately show ?thesis using keep by blast
qed

text \<open>
  In \<open>Arena(16)\<close> at address 65536: alignment 3, and size 17 with alignment 1.
\<close>

theorem failed_allocation_keeps_offset_example:
  "placed (Arena_ctor 65536 16) \<and> invariant (Arena_ctor 65536 16)
   \<and> try_allocate (Arena_ctor 65536 16) 1 3 = (0, Arena_ctor 65536 16)
   \<and> try_allocate (Arena_ctor 65536 16) 17 1 = (0, Arena_ctor 65536 16)
   \<and> allocate (Arena_ctor 65536 16) 17 1 = (Inl bad_alloc, Arena_ctor 65536 16)"
proof -
  have p: "placed (Arena_ctor 65536 16)"
    by (simp add: placed_def Arena_ctor_def)
  have i: "invariant (Arena_ctor 65536 16)"
    by (simp add: invariant_def Arena_ctor_def)
  have h1: "\<not> is_power_of_two 3"
    by (simp add: is_power_of_two_def)
  have h2: "buffer_size (Arena_ctor 65536 16) < new_offset (Arena_ctor 65536 16) 17 1"
    by (simp add: new_offset_def aligned_address_def align_up_def Arena_ctor_def)
  have e: "fst (allocate (Arena_ctor 65536 16) 17 1) = Inl bad_alloc"
    by (simp add: arena_defs)
  note t1 = failed_allocation_keeps_offset [OF p i, where al = 3 and n = 1]
  note t2 = failed_allocation_keeps_offset [OF p i, where al = 1 and n = 17]
  from t1 h1 have "try_allocate (Arena_ctor 65536 16) 1 3 = (0, Arena_ctor 65536 16)"
    by (metis prod.collapse)
  moreover from t2 h2 have "try_allocate (Arena_ctor 65536 16) 17 1 = (0, Arena_ctor 65536 16)"
    by (metis prod.collapse)
  moreover from t2 e have "allocate (Arena_ctor 65536 16) 17 1 = (Inl bad_alloc, Arena_ctor 65536 16)"
    by (metis prod.collapse)
  ultimately show ?thesis using p i by blast
qed

text \<open>
  Why the placement matters: a buffer in the upper half of the address space, which no
  64-bit platform hands to a program. Rounding its address up to a multiple of \<open>2 ^ 63\<close>
  wraps to 0, and with a size that wraps the new offset back into range the call
  passes both tests, commits the offset 8 and returns the address 0, the null pointer.
\<close>

lemma null_result_in_upper_half:
  "invariant \<lparr>buffer_data = 9223372036854775824, buffer_size = 64, offset' = 0\<rparr>
   \<and> \<not> placed \<lparr>buffer_data = 9223372036854775824, buffer_size = 64, offset' = 0\<rparr>
   \<and> is_power_of_two 9223372036854775808
   \<and> try_allocate \<lparr>buffer_data = 9223372036854775824, buffer_size = 64, offset' = 0\<rparr>
        9223372036854775832 9223372036854775808
       = (0, \<lparr>buffer_data = 9223372036854775824, buffer_size = 64, offset' = 8\<rparr>)"
  by (simp add: arena_defs placed_def)

section \<open>The scenarios of the specification\<close>

text \<open>
  A new arena has \<open>used() == 0\<close> and \<open>remaining() == capacity()\<close>. Then the
  example scenarios, with the buffer at address 65536 and the default alignment
  \<open>alignof(std::max_align_t)\<close> taken as 16. Scenario 4: \<open>Arena(16)\<close>;
  \<open>allocate(16, 1)\<close> succeeds; then \<open>try_allocate(1, 1)\<close> returns null and
  \<open>allocate(1, 1)\<close> throws. Scenario 5: \<open>Arena(64)\<close>; mark, \<open>allocate(10)\<close>, mark,
  \<open>allocate(10)\<close>; rewinding to the second mark gives \<open>used() == 10\<close>, to the first
  \<open>used() == 0\<close>. Scenario 3: \<open>Arena(256)\<close>; \<open>allocate(64)\<close>; \<open>reset()\<close>.
\<close>

lemma after_construction:
  "used (Arena_ctor d c) = 0 \<and> remaining (Arena_ctor d c) = capacity (Arena_ctor d c)"
  by (simp add: used_def remaining_def capacity_def Arena_ctor_def)

lemma scenario_exhausted:
  "allocate (Arena_ctor 65536 16) 16 1
     = (Inr 65536, \<lparr>buffer_data = 65536, buffer_size = 16, offset' = 16\<rparr>)
   \<and> fst (try_allocate (snd (allocate (Arena_ctor 65536 16) 16 1)) 1 1) = 0
   \<and> fst (allocate (snd (allocate (Arena_ctor 65536 16) 16 1)) 1 1) = Inl bad_alloc"
  by (simp add: arena_defs)

lemma scenario_marks:
  "used (calls (Arena_ctor 65536 64) [Allocate 10 16]) = 10
   \<and> used (calls (Arena_ctor 65536 64) [Allocate 10 16, Allocate 10 16]) = 26
   \<and> used (rewind (calls (Arena_ctor 65536 64) [Allocate 10 16, Allocate 10 16])
        (mark (calls (Arena_ctor 65536 64) [Allocate 10 16]))) = 10
   \<and> used (rewind (calls (Arena_ctor 65536 64) [Allocate 10 16, Allocate 10 16])
        (mark (Arena_ctor 65536 64))) = 0"
  by (simp add: arena_defs)

lemma scenario_reset:
  "used (calls (Arena_ctor 65536 256) [Allocate 64 16]) = 64
   \<and> used (calls (Arena_ctor 65536 256) [Allocate 64 16, Reset]) = 0"
  by (simp add: arena_defs)

section \<open>Allocation where the size does not overflow\<close>

text \<open>
  Where the new offset \<open>N\<close>, computed on the natural numbers, fits \<open>std::size_t\<close>,
  \<open>try_allocate\<close> does what the alignment algorithm says: it fails exactly when
  \<open>N\<close> exceeds the capacity, and otherwise returns the next free address rounded up to
  a multiple of the alignment, an address the arena owns, and commits \<open>N\<close>.
\<close>

lemma try_allocate_without_overflow:
  assumes pl: "placed a" and inv: "invariant a" and p2: "is_power_of_two al"
    and A: "A = round_up (unat (buffer_data a) + unat (offset' a)) (unat al)"
    and N: "N = A - unat (buffer_data a) + max (unat n) 1"
    and fits: "N < 2 ^ 64"
  shows "unat (buffer_size a) < N \<Longrightarrow> try_allocate a n al = (0, a)"
    and "N \<le> unat (buffer_size a) \<Longrightarrow>
           unat (fst (try_allocate a n al)) = A
           \<and> snd (try_allocate a n al) = a\<lparr>offset' := word_of_nat N\<rparr>
           \<and> unat (used (snd (try_allocate a n al))) = N
           \<and> unat al dvd unat (fst (try_allocate a n al))
           \<and> owns (snd (try_allocate a n al)) (fst (try_allocate a n al))"
proof -
  have ua: "unat (aligned_address a al) = A"
    using pl inv p2 by (simp only: unat_aligned_address A)
  have pos: "0 < unat al" using p2 by (rule is_power_of_two_pos)
  have ge: "unat (buffer_data a) + unat (offset' a) \<le> A"
    unfolding A using pos by (rule round_up_props(1))
  then have le: "buffer_data a \<le> aligned_address a al"
    by (simp add: word_le_nat_alt ua)
  have sub: "unat (aligned_address a al - buffer_data a) = A - unat (buffer_data a)"
    using le by (simp add: unat_sub ua)
  have sz: "unat (if n = 0 then 1 else n) = max (unat n) 1"
  proof (cases "n = 0")
    case True
    then show ?thesis by simp
  next
    case False
    then have "0 < unat n" by (simp add: unat_gt_0)
    then show ?thesis using False by (simp add: max_def)
  qed
  have "unat (aligned_address a al - buffer_data a) + unat (if n = 0 then 1 else n)
          < 2 ^ LENGTH(64)"
    using fits by (simp only: sub sz N) simp
  then have "unat (new_offset a n al)
      = unat (aligned_address a al - buffer_data a) + unat (if n = 0 then 1 else n)"
    unfolding new_offset_def by (simp only: unat_add_lem [THEN iffD1])
  then have no: "unat (new_offset a n al) = N"
    by (simp only: sub sz N)
  have "new_offset a n al = word_of_nat (unat (new_offset a n al))"
    by simp
  then have now: "new_offset a n al = word_of_nat N"
    by (simp only: no)
  show "try_allocate a n al = (0, a)" if "unat (buffer_size a) < N"
    using that no by (simp add: try_allocate_cases word_less_nat_alt)
  show "unat (fst (try_allocate a n al)) = A
           \<and> snd (try_allocate a n al) = a\<lparr>offset' := word_of_nat N\<rparr>
           \<and> unat (used (snd (try_allocate a n al))) = N
           \<and> unat al dvd unat (fst (try_allocate a n al))
           \<and> owns (snd (try_allocate a n al)) (fst (try_allocate a n al))"
    if fit: "N \<le> unat (buffer_size a)"
  proof -
    have nl: "\<not> buffer_size a < new_offset a n al"
      using fit no by (simp add: word_less_nat_alt)
    have r: "try_allocate a n al = (aligned_address a al, a\<lparr>offset' := new_offset a n al\<rparr>)"
      using p2 nl by (simp add: try_allocate_cases)
    have dv: "unat al dvd A"
      unfolding A using pos by (rule round_up_props(3))
    have "unat (buffer_data a) + unat (buffer_size a) < 2 ^ LENGTH(64)"
      using pl by (simp add: placed_def)
    then have e: "unat (buffer_data a + buffer_size a) = unat (buffer_data a) + unat (buffer_size a)"
      by (simp only: unat_add_lem [THEN iffD1])
    have "1 \<le> max (unat n) 1" by simp
    with fit ge have "A < unat (buffer_data a) + unat (buffer_size a)"
      unfolding N by linarith
    then have ow: "aligned_address a al < buffer_data a + buffer_size a"
      by (simp add: word_less_nat_alt ua e)
    have "unat (fst (try_allocate a n al)) = A"
      by (simp add: r ua)
    moreover have "snd (try_allocate a n al) = a\<lparr>offset' := word_of_nat N\<rparr>"
      by (simp add: r now)
    moreover have "unat (used (snd (try_allocate a n al))) = N"
      by (simp add: r used_def no)
    moreover have "unat al dvd unat (fst (try_allocate a n al))"
      using dv by (simp add: r ua)
    moreover have "owns (snd (try_allocate a n al)) (fst (try_allocate a n al))"
      using le ow by (simp add: r owns_def)
    ultimately show ?thesis by blast
  qed
qed

section \<open>Overflow of the size\<close>

text \<open>
  C1. The arena \<open>Arena a(8)\<close> is full after \<open>a.allocate(8, 1)\<close>. The call
  \<open>a.try_allocate(SIZE_MAX - 7, 1)\<close> then asks for 18446744073709551608 bytes at the
  aligned address 65544; the new offset \<open>(65544 - 65536) + 18446744073709551608\<close>
  exceeds the capacity 8, but in \<open>std::size_t\<close> the sum is 0. The call returns the
  address 65544, which is one past the end of the buffer, so \<open>owns\<close> is false of it,
  and sets the offset back to 0.
\<close>

theorem try_allocate_size_wraps:
  "fst (allocate (Arena_ctor 65536 8) 8 1) = Inr 65536
   \<and> full_arena = \<lparr>buffer_data = 65536, buffer_size = 8, offset' = 8\<rparr>
   \<and> is_power_of_two 1
   \<and> unat (capacity full_arena) < (65544 - 65536) + unat (18446744073709551608 :: size_t)
   \<and> try_allocate full_arena 18446744073709551608 1
       = (65544, \<lparr>buffer_data = 65536, buffer_size = 8, offset' = 0\<rparr>)
   \<and> \<not> owns (snd (try_allocate full_arena 18446744073709551608 1)) 65544
   \<and> used (snd (try_allocate full_arena 18446744073709551608 1)) = 0"
  by (simp add: full_arena_def arena_defs)

text \<open>
  C2. The same call shows a capacity failure that is not reported. The full arena has
  no remaining byte and the request needs the new offset \<open>2 ^ 64\<close>, far above the
  capacity 8; yet \<open>try_allocate\<close> returns the non-null address 65544 and moves
  \<open>used()\<close> from 8 to 0, and \<open>allocate\<close> returns that address without throwing.
\<close>

theorem insufficient_capacity_not_reported:
  "invariant full_arena
   \<and> remaining full_arena = 0
   \<and> is_power_of_two 1
   \<and> spec_aligned_address full_arena 1 = 65544
   \<and> spec_new_offset full_arena 18446744073709551608 1 = 18446744073709551616
   \<and> unat (capacity full_arena) < spec_new_offset full_arena 18446744073709551608 1
   \<and> fst (try_allocate full_arena 18446744073709551608 1) = 65544
   \<and> fst (try_allocate full_arena 18446744073709551608 1) \<noteq> 0
   \<and> used full_arena = 8
   \<and> used (snd (try_allocate full_arena 18446744073709551608 1)) = 0
   \<and> fst (allocate full_arena 18446744073709551608 1) = Inr 65544"
  by (simp add: full_arena_def arena_defs remaining_def spec_new_offset_def
      spec_aligned_address_def round_up_def)

section \<open>How \<open>allocate\<close> fails\<close>

text \<open>
  C3, as the code has it. \<open>allocate\<close> has one \<open>throw\<close>, of \<open>std::bad_alloc\<close>. It
  throws it when the alignment is not a power of two; it throws it when the remaining
  capacity is insufficient after alignment padding, that is when the new offset of the
  alignment algorithm exceeds the capacity, for every request whose aligned address and
  new offset fit \<open>std::size_t\<close>; and it throws nothing else.
\<close>

theorem allocate_raises_bad_alloc:
  "(\<not> is_power_of_two al \<longrightarrow> fst (allocate a n al) = Inl bad_alloc)
   \<and> (is_power_of_two al \<and> spec_aligned_address a al < 2 ^ 64
        \<and> spec_new_offset a n al < 2 ^ 64
        \<and> unat (capacity a) < spec_new_offset a n al
        \<longrightarrow> fst (allocate a n al) = Inl bad_alloc)
   \<and> (\<forall>e. fst (allocate a n al) = Inl e \<longrightarrow> e = bad_alloc)"
proof (intro conjI impI allI)
  assume "\<not> is_power_of_two al"
  then show "fst (allocate a n al) = Inl bad_alloc"
    by (simp add: allocate_cases try_allocate_cases)
next
  assume h: "is_power_of_two al \<and> spec_aligned_address a al < 2 ^ 64
        \<and> spec_new_offset a n al < 2 ^ 64
        \<and> unat (capacity a) < spec_new_offset a n al"
  then have "unat (new_offset a n al) = spec_new_offset a n al"
    by (simp only: unat_new_offset_fits)
  with h have "buffer_size a < new_offset a n al"
    by (simp add: word_less_nat_alt capacity_def)
  then show "fst (allocate a n al) = Inl bad_alloc"
    by (simp add: allocate_cases try_allocate_cases)
next
  fix e assume "fst (allocate a n al) = Inl e"
  then show "e = bad_alloc"
    by (simp add: allocate_cases split: if_splits)
qed

text \<open>
  At alignment 3, and at size 17 with alignment 1 in an arena of 16 bytes, where the
  new offset is 17.
\<close>

theorem allocate_raises_bad_alloc_witness:
  "fst (allocate (Arena_ctor 65536 16) 1 3) = Inl bad_alloc
   \<and> spec_new_offset (Arena_ctor 65536 16) 17 1 = 17
   \<and> fst (allocate (Arena_ctor 65536 16) 17 1) = Inl bad_alloc"
proof -
  have h1: "\<not> is_power_of_two 3"
    by (simp add: is_power_of_two_def)
  have s: "spec_new_offset (Arena_ctor 65536 16) 17 1 = 17"
    by (simp add: spec_new_offset_def spec_aligned_address_def round_up_def Arena_ctor_def)
  have h2: "is_power_of_two 1 \<and> spec_aligned_address (Arena_ctor 65536 16) 1 < 2 ^ 64
      \<and> spec_new_offset (Arena_ctor 65536 16) 17 1 < 2 ^ 64
      \<and> unat (capacity (Arena_ctor 65536 16)) < spec_new_offset (Arena_ctor 65536 16) 17 1"
    by (simp add: is_power_of_two_def spec_new_offset_def spec_aligned_address_def
        round_up_def Arena_ctor_def capacity_def)
  show ?thesis
    using h1 h2 s allocate_raises_bad_alloc [of 3 "Arena_ctor 65536 16" 1]
      allocate_raises_bad_alloc [of 1 "Arena_ctor 65536 16" 17]
    by blast
qed

text \<open>
  C3 as stated fails: the failure for an invalid alignment and the failure for
  insufficient capacity are the same exception, \<open>std::bad_alloc\<close>, and not
  \<open>std::invalid_argument\<close>; a caller cannot tell them apart.
\<close>

theorem allocate_same_exception:
  "\<not> is_power_of_two 3
   \<and> allocate (Arena_ctor 65536 16) 1 3 = (Inl bad_alloc, Arena_ctor 65536 16)
   \<and> is_power_of_two 1
   \<and> buffer_size (Arena_ctor 65536 16) < new_offset (Arena_ctor 65536 16) 17 1
   \<and> allocate (Arena_ctor 65536 16) 17 1 = (Inl bad_alloc, Arena_ctor 65536 16)
   \<and> fst (allocate (Arena_ctor 65536 16) 1 3) \<noteq> Inl invalid_argument
   \<and> fst (allocate (Arena_ctor 65536 16) 1 3) = fst (allocate (Arena_ctor 65536 16) 17 1)"
  by (simp add: arena_defs new_offset_def aligned_address_def)

section \<open>The invariant\<close>

lemma buffer_try_allocate:
  "buffer_size (snd (try_allocate a n al)) = buffer_size a"
  "buffer_data (snd (try_allocate a n al)) = buffer_data a"
  by (simp_all add: try_allocate_cases)

lemma buffer_call:
  "buffer_size (call a x) = buffer_size a \<and> buffer_data (call a x) = buffer_data a"
  by (cases x) (simp_all add: buffer_try_allocate allocate_cases make_def make_array_def
      rewind_def reset_def)

lemma buffer_calls:
  "buffer_size (calls a ops) = buffer_size a \<and> buffer_data (calls a ops) = buffer_data a"
  unfolding calls_def
  by (induction ops arbitrary: a) (simp_all add: buffer_call)

lemma invariant_try_allocate:
  "invariant a \<Longrightarrow> invariant (snd (try_allocate a n al))"
  by (simp add: try_allocate_cases invariant_def not_less)

lemma invariant_allocate:
  "invariant a \<Longrightarrow> invariant (snd (allocate a n al))"
  by (simp add: allocate_cases invariant_try_allocate)

lemma invariant_rewind: "invariant a \<Longrightarrow> invariant (rewind a m)"
  by (simp add: rewind_def invariant_def)

lemma invariant_reset: "invariant (reset a)"
  by (simp add: reset_def invariant_def)

lemma invariant_call: "invariant a \<Longrightarrow> invariant (call a x)"
  by (cases x) (simp_all add: invariant_try_allocate invariant_allocate make_def
      make_array_def invariant_rewind invariant_reset)

lemma invariant_calls: "invariant a \<Longrightarrow> invariant (calls a ops)"
  unfolding calls_def
  by (induction ops arbitrary: a) (simp_all add: invariant_call)

lemma invariant_move_ctor:
  "p \<noteq> q \<and> (\<forall>x. x \<noteq> p \<longrightarrow> invariant (arenas w x))
     \<Longrightarrow> invariant (arenas (Arena_move_ctor w p q) x)"
  by (simp add: Arena_move_ctor_def Let_def moved_from_buffer_def invariant_def)

lemma invariant_move_assign:
  "\<forall>x. invariant (arenas w x) \<Longrightarrow> invariant (arenas (Arena_move_assign w p q) x)"
  by (simp add: Arena_move_assign_def Let_def moved_from_buffer_def invariant_def)

text \<open>
  C4. The offset never exceeds the capacity (and is never negative: it is unsigned). The
  invariant holds of a newly constructed arena; \<open>try_allocate\<close>, \<open>allocate\<close>,
  \<open>make\<close>, \<open>make_array\<close>, \<open>rewind\<close> and \<open>reset\<close> preserve it, whether they return or
  throw, and so does every sequence of such calls; and after a move construction (of a
  new arena \<open>p\<close> from another arena \<open>q\<close>) or a move assignment every arena of the store
  satisfies it, source and destination included.
\<close>

theorem invariant_holds:
  "invariant (Arena_ctor d c)
   \<and> (invariant a \<longrightarrow>
        invariant (snd (try_allocate a n al)) \<and> invariant (snd (allocate a n al))
        \<and> invariant (snd (make a n al)) \<and> invariant (snd (make_array a n al cnt))
        \<and> invariant (rewind a m) \<and> invariant (reset a)
        \<and> invariant (calls a ops))
   \<and> (p \<noteq> q \<and> (\<forall>x. x \<noteq> p \<longrightarrow> invariant (arenas w x)) \<longrightarrow>
        (\<forall>x. invariant (arenas (Arena_move_ctor w p q) x)))
   \<and> ((\<forall>x. invariant (arenas w x)) \<longrightarrow>
        (\<forall>x. invariant (arenas (Arena_move_assign w p q) x)))"
proof (intro conjI impI allI)
  show "invariant (Arena_ctor d c)"
    by (simp add: Arena_ctor_def invariant_def)
next
  assume "invariant a"
  then show "invariant (snd (try_allocate a n al))" by (rule invariant_try_allocate)
next
  assume "invariant a"
  then show "invariant (snd (allocate a n al))" by (rule invariant_allocate)
next
  assume "invariant a"
  then show "invariant (snd (make a n al))" by (simp add: make_def invariant_allocate)
next
  assume "invariant a"
  then show "invariant (snd (make_array a n al cnt))"
    by (simp add: make_array_def invariant_allocate)
next
  assume "invariant a"
  then show "invariant (rewind a m)" by (rule invariant_rewind)
next
  show "invariant (reset a)" by (rule invariant_reset)
next
  assume "invariant a"
  then show "invariant (calls a ops)" by (rule invariant_calls)
next
  fix x assume "p \<noteq> q \<and> (\<forall>x. x \<noteq> p \<longrightarrow> invariant (arenas w x))"
  then show "invariant (arenas (Arena_move_ctor w p q) x)" by (rule invariant_move_ctor)
next
  fix x assume "\<forall>x. invariant (arenas w x)"
  then show "invariant (arenas (Arena_move_assign w p q) x)" by (rule invariant_move_assign)
qed

text \<open>
  In \<open>Arena(16)\<close> at address 65536 and in the example store, arena 1 moved to a new
  arena 2 and move-assigned to arena 0.
\<close>

theorem invariant_holds_witness:
  "invariant (Arena_ctor 65536 16)
   \<and> invariant (snd (try_allocate (Arena_ctor 65536 16) 4 8))
   \<and> invariant (snd (allocate (Arena_ctor 65536 16) 17 1))
   \<and> invariant (snd (make (Arena_ctor 65536 16) 24 8))
   \<and> invariant (snd (make_array (Arena_ctor 65536 16) 4 4 3))
   \<and> invariant (rewind (Arena_ctor 65536 16) \<lparr>offset = 12\<rparr>)
   \<and> invariant (calls (Arena_ctor 65536 16) [Allocate 8 1, TryAllocate 4 8, Reset, Make 2 2])
   \<and> (\<forall>x. invariant (arenas example_world x))
   \<and> (\<forall>x. invariant (arenas (Arena_move_ctor example_world 2 1) x))
   \<and> (\<forall>x. invariant (arenas (Arena_move_assign example_world 0 1) x))"
proof -
  have i: "invariant (Arena_ctor 65536 16)"
    using invariant_holds [of 65536 16] by blast
  have w: "\<forall>x. invariant (arenas example_world x)"
    by (simp add: example_world_def arena_defs)
  then have w': "(2::nat) \<noteq> 1 \<and> (\<forall>x. x \<noteq> 2 \<longrightarrow> invariant (arenas example_world x))"
    by simp
  have "invariant (snd (try_allocate (Arena_ctor 65536 16) 4 8))"
    using i invariant_holds [of 65536 16 "Arena_ctor 65536 16" 4 8 3
        "\<lparr>offset = 12\<rparr>" "[]" 2 1 example_world]
    by blast
  moreover have "invariant (snd (allocate (Arena_ctor 65536 16) 17 1))"
    using i invariant_holds [of 65536 16 "Arena_ctor 65536 16" 17 1 3
        "\<lparr>offset = 12\<rparr>" "[]" 2 1 example_world]
    by blast
  moreover have "invariant (snd (make (Arena_ctor 65536 16) 24 8))"
    using i invariant_holds [of 65536 16 "Arena_ctor 65536 16" 24 8 3
        "\<lparr>offset = 12\<rparr>" "[]" 2 1 example_world]
    by blast
  moreover have "invariant (snd (make_array (Arena_ctor 65536 16) 4 4 3))
      \<and> invariant (rewind (Arena_ctor 65536 16) \<lparr>offset = 12\<rparr>)
      \<and> invariant (calls (Arena_ctor 65536 16) [Allocate 8 1, TryAllocate 4 8, Reset, Make 2 2])
      \<and> (\<forall>x. invariant (arenas (Arena_move_ctor example_world 2 1) x))"
    using i w' invariant_holds [of 65536 16 "Arena_ctor 65536 16" 4 4 3
        "\<lparr>offset = 12\<rparr>" "[Allocate 8 1, TryAllocate 4 8, Reset, Make 2 2]"
        2 1 example_world]
    by blast
  moreover have "\<forall>x. invariant (arenas (Arena_move_assign example_world 0 1) x)"
    using w invariant_holds [of 65536 16 "Arena_ctor 65536 16" 4 4 3
        "\<lparr>offset = 12\<rparr>" "[]" 0 1 example_world]
    by blast
  ultimately show ?thesis using i w by blast
qed

section \<open>Checkpoints\<close>

text \<open>
  C5. \<open>rewind(m)\<close> sets the offset to the mark's value when that value does not
  exceed the capacity and changes nothing otherwise. So a mark taken from an arena
  brings \<open>used()\<close> back to its value at capture after any sequence of calls of
  \<open>try_allocate\<close>, \<open>allocate\<close>, \<open>make\<close>, \<open>make_array\<close>, \<open>rewind\<close> and \<open>reset\<close>.
\<close>

theorem rewind_restores_mark:
  "(offset m \<le> capacity a \<longrightarrow> rewind a m = a\<lparr>offset' := offset m\<rparr>)
   \<and> (\<not> offset m \<le> capacity a \<longrightarrow> rewind a m = a)
   \<and> (invariant a \<longrightarrow> used (rewind (calls a ops) (mark a)) = used a)"
proof -
  have "used (rewind (calls a ops) (mark a)) = used a" if "invariant a"
  proof -
    have "offset (mark a) \<le> buffer_size (calls a ops)"
      using that by (simp add: mark_def invariant_def buffer_calls)
    then show ?thesis by (simp add: rewind_def used_def mark_def)
  qed
  then show ?thesis by (simp add: rewind_def capacity_def)
qed

text \<open>
  A mark in range and one out of range on the full arena of 8 bytes, and a mark taken
  before four allocations in an arena of 64 bytes.
\<close>

theorem rewind_restores_mark_witness:
  "rewind full_arena \<lparr>offset = 3\<rparr> = full_arena\<lparr>offset' := 3\<rparr>
   \<and> rewind full_arena \<lparr>offset = 9\<rparr> = full_arena
   \<and> used (rewind (calls (Arena_ctor 65536 64)
           [Allocate 10 1, Make 8 8, TryAllocate 100 4, MakeArray 4 4 5])
         (mark (Arena_ctor 65536 64))) = used (Arena_ctor 65536 64)"
proof -
  have h1: "offset \<lparr>offset = 3\<rparr> \<le> capacity full_arena"
    by (simp add: full_arena_def arena_defs)
  have h2: "\<not> offset \<lparr>offset = 9\<rparr> \<le> capacity full_arena"
    by (simp add: full_arena_def arena_defs)
  have h3: "invariant (Arena_ctor 65536 64)"
    by (simp add: arena_defs)
  have "rewind full_arena \<lparr>offset = 3\<rparr> = full_arena\<lparr>offset' := offset \<lparr>offset = 3\<rparr>\<rparr>"
    using h1 rewind_restores_mark [of "\<lparr>offset = 3\<rparr>" full_arena "[]"] by blast
  moreover have "rewind full_arena \<lparr>offset = 9\<rparr> = full_arena"
    using h2 rewind_restores_mark [of "\<lparr>offset = 9\<rparr>" full_arena "[]"] by blast
  moreover have "used (rewind (calls (Arena_ctor 65536 64)
           [Allocate 10 1, Make 8 8, TryAllocate 100 4, MakeArray 4 4 5])
         (mark (Arena_ctor 65536 64))) = used (Arena_ctor 65536 64)"
    using h3 rewind_restores_mark [of "\<lparr>offset = 3\<rparr>" "Arena_ctor 65536 64"
        "[Allocate 10 1, Make 8 8, TryAllocate 100 4, MakeArray 4 4 5]"] by blast
  ultimately show ?thesis by simp
qed

text \<open>
  C8. \<open>reset()\<close> sets \<open>used()\<close> to zero, and from every arena it gives the same
  arena as \<open>rewind\<close> with a mark captured when \<open>used()\<close> was zero.
\<close>

theorem reset_is_rewind_to_zero:
  "used (reset a) = 0 \<and> (used b = 0 \<longrightarrow> reset a = rewind a (mark b))"
  by (simp add: reset_def rewind_def mark_def used_def)

text \<open>
  The mark of the newly constructed arena, applied to the full one.
\<close>

theorem reset_is_rewind_to_zero_witness:
  "used (Arena_ctor 65536 8) = 0
   \<and> reset full_arena = rewind full_arena (mark (Arena_ctor 65536 8))"
proof -
  have h: "used (Arena_ctor 65536 8) = 0"
    by (simp add: used_def Arena_ctor_def)
  then show ?thesis
    using reset_is_rewind_to_zero [of full_arena "Arena_ctor 65536 8"] by blast
qed

section \<open>Scopes\<close>

lemma rewind_to_earlier_mark:
  assumes "invariant a" and "buffer_size b = buffer_size a"
  shows "used (rewind b (mark a)) = used a"
  using assms by (simp add: rewind_def mark_def used_def invariant_def)

lemma scope_after_calls:
  "scopes (at_arena w a f) = scopes w"
  "arenas (at_arena w a f) a = f (arenas w a)"
  "arenas (Scope_ctor w s a) = arenas w"
  "scopes (Scope_ctor w s a) s = \<lparr>a_ptr = Some a, m_mark = mark (arenas w a)\<rparr>"
  "s' \<noteq> s \<Longrightarrow> scopes (Scope_ctor w s a) s' = scopes w s'"
  by (simp_all add: at_arena_def Scope_ctor_def)

lemma scope_dtor_active:
  "a_ptr (scopes w s) = Some a \<Longrightarrow>
     arenas (Scope_dtor w s) a = rewind (arenas w a) (m_mark (scopes w s))"
  by (simp add: Scope_dtor_def at_arena_def)

lemma scope_closes:
  assumes "invariant (arenas w a)"
  shows "used (arenas (Scope_dtor (at_arena (Scope_ctor w s a) a (\<lambda>x. calls x ops)) s) a)
           = used (arenas w a)"
  using assms
  by (simp add: scope_dtor_active scope_after_calls rewind_to_earlier_mark buffer_calls)

text \<open>
  C6. Destroying a scope that holds its arena brings \<open>used()\<close> back to its value
  at the scope's construction, whatever calls came between; with two nested scopes, the
  inner destroyed first, each brings back the value at its own construction. A move
  construction changes no arena and hands the arena pointer and the mark to the new
  scope: destroying the moved-from scope changes nothing, and destroying the new one
  rewinds as the source would have. A move assignment between two scopes first does to
  the arenas what destroying the destination does (the rewind to the destination's own
  mark, if it holds an arena), then hands over the source's pointer and mark and leaves
  the source inert; assigning a scope to itself changes nothing.
\<close>

theorem scope_rewinds_once:
  "(invariant (arenas w a) \<longrightarrow>
      used (arenas (Scope_dtor (at_arena (Scope_ctor w s a) a (\<lambda>x. calls x ops)) s) a)
        = used (arenas w a))
   \<and> (invariant (arenas w a) \<and> s1 \<noteq> s2 \<longrightarrow>
        (let w1 = at_arena (Scope_ctor w s1 a) a (\<lambda>x. calls x ops1);
             w2 = at_arena (Scope_ctor w1 s2 a) a (\<lambda>x. calls x ops2);
             w3 = Scope_dtor w2 s2;
             w4 = Scope_dtor (at_arena w3 a (\<lambda>x. calls x ops3)) s1
         in used (arenas w3 a) = used (arenas w1 a) \<and> used (arenas w4 a) = used (arenas w a)))
   \<and> (this \<noteq> other \<longrightarrow>
        arenas (Scope_move_ctor w this other) = arenas w
        \<and> a_ptr (scopes (Scope_move_ctor w this other) this) = a_ptr (scopes w other)
        \<and> m_mark (scopes (Scope_move_ctor w this other) this) = m_mark (scopes w other)
        \<and> a_ptr (scopes (Scope_move_ctor w this other) other) = None
        \<and> Scope_dtor (Scope_move_ctor w this other) other = Scope_move_ctor w this other
        \<and> arenas (Scope_dtor (Scope_move_ctor w this other) this) = arenas (Scope_dtor w other))
   \<and> (this \<noteq> other \<longrightarrow>
        arenas (Scope_move_assign w this other) = arenas (Scope_dtor w this)
        \<and> a_ptr (scopes (Scope_move_assign w this other) this) = a_ptr (scopes w other)
        \<and> m_mark (scopes (Scope_move_assign w this other) this) = m_mark (scopes w other)
        \<and> a_ptr (scopes (Scope_move_assign w this other) other) = None
        \<and> Scope_dtor (Scope_move_assign w this other) other = Scope_move_assign w this other)
   \<and> Scope_move_assign w this this = w"
proof (intro conjI impI)
  assume "invariant (arenas w a)"
  then show "used (arenas (Scope_dtor (at_arena (Scope_ctor w s a) a (\<lambda>x. calls x ops)) s) a)
        = used (arenas w a)"
    by (rule scope_closes)
next
  assume h: "invariant (arenas w a) \<and> s1 \<noteq> s2"
  define w1 where "w1 = at_arena (Scope_ctor w s1 a) a (\<lambda>x. calls x ops1)"
  define w2 where "w2 = at_arena (Scope_ctor w1 s2 a) a (\<lambda>x. calls x ops2)"
  define w3 where "w3 = Scope_dtor w2 s2"
  define w4 where "w4 = Scope_dtor (at_arena w3 a (\<lambda>x. calls x ops3)) s1"
  have a1: "arenas w1 a = calls (arenas w a) ops1"
    by (simp add: w1_def scope_after_calls)
  then have i1: "invariant (arenas w1 a)"
    using h by (simp add: invariant_calls)
  then have u3: "used (arenas w3 a) = used (arenas w1 a)"
    unfolding w3_def w2_def by (rule scope_closes)
  have s1: "scopes w3 s1 = \<lparr>a_ptr = Some a, m_mark = mark (arenas w a)\<rparr>"
    using h by (simp add: w3_def w2_def w1_def Scope_dtor_def scope_after_calls
        split: option.split)
  have b3: "buffer_size (arenas w3 a) = buffer_size (arenas w a)"
    by (simp add: w3_def w2_def scope_dtor_active scope_after_calls rewind_def
        buffer_calls a1)
  have "used (arenas w4 a) = used (arenas w a)"
    using h s1 b3
    by (simp add: w4_def scope_dtor_active scope_after_calls rewind_to_earlier_mark
        buffer_calls)
  with u3 show "let w1 = at_arena (Scope_ctor w s1 a) a (\<lambda>x. calls x ops1);
             w2 = at_arena (Scope_ctor w1 s2 a) a (\<lambda>x. calls x ops2);
             w3 = Scope_dtor w2 s2;
             w4 = Scope_dtor (at_arena w3 a (\<lambda>x. calls x ops3)) s1
         in used (arenas w3 a) = used (arenas w1 a) \<and> used (arenas w4 a) = used (arenas w a)"
    by (simp add: Let_def w1_def w2_def w3_def w4_def)
next
  assume "this \<noteq> other"
  then show "arenas (Scope_move_ctor w this other) = arenas w"
    and "a_ptr (scopes (Scope_move_ctor w this other) this) = a_ptr (scopes w other)"
    and "m_mark (scopes (Scope_move_ctor w this other) this) = m_mark (scopes w other)"
    and "a_ptr (scopes (Scope_move_ctor w this other) other) = None"
    and "Scope_dtor (Scope_move_ctor w this other) other = Scope_move_ctor w this other"
    and "arenas (Scope_dtor (Scope_move_ctor w this other) this) = arenas (Scope_dtor w other)"
    by (simp_all add: Scope_move_ctor_def Scope_dtor_def at_arena_def Let_def
        split: option.split)
next
  assume "this \<noteq> other"
  then show "arenas (Scope_move_assign w this other) = arenas (Scope_dtor w this)"
    and "a_ptr (scopes (Scope_move_assign w this other) this) = a_ptr (scopes w other)"
    and "m_mark (scopes (Scope_move_assign w this other) this) = m_mark (scopes w other)"
    and "a_ptr (scopes (Scope_move_assign w this other) other) = None"
    and "Scope_dtor (Scope_move_assign w this other) other = Scope_move_assign w this other"
    by (simp_all add: Scope_move_assign_def Scope_dtor_def at_arena_def Let_def
        split: option.split)
next
  show "Scope_move_assign w this this = w"
    by (simp add: Scope_move_assign_def)
qed

text \<open>
  In the example store: one scope, two nested scopes, and a move in each direction
  between an active scope 6 and an inert scope 5.
\<close>

theorem scope_rewinds_once_witness:
  "invariant (arenas scoped_world 1)
   \<and> used (arenas (Scope_dtor (at_arena (Scope_ctor scoped_world 5 1) 1
          (\<lambda>x. calls x [Allocate 4 1, Make 2 2])) 5) 1) = used (arenas scoped_world 1)
   \<and> (let w1 = at_arena (Scope_ctor scoped_world 5 1) 1 (\<lambda>x. calls x [Allocate 1 1]);
           w2 = at_arena (Scope_ctor w1 7 1) 1 (\<lambda>x. calls x [MakeArray 4 4 1]);
           w3 = Scope_dtor w2 7;
           w4 = Scope_dtor (at_arena w3 1 (\<lambda>x. calls x [TryAllocate 2 1])) 5
       in used (arenas w3 1) = used (arenas w1 1)
          \<and> used (arenas w4 1) = used (arenas scoped_world 1))
   \<and> Scope_dtor (Scope_move_ctor scoped_world 5 6) 6 = Scope_move_ctor scoped_world 5 6
   \<and> arenas (Scope_dtor (Scope_move_ctor scoped_world 5 6) 5) = arenas (Scope_dtor scoped_world 6)
   \<and> arenas (Scope_move_assign scoped_world 6 5) = arenas (Scope_dtor scoped_world 6)
   \<and> Scope_dtor (Scope_move_assign scoped_world 6 5) 5 = Scope_move_assign scoped_world 6 5"
proof -
  have i: "invariant (arenas scoped_world 1)"
    by (simp add: scoped_world_def Scope_ctor_def example_world_def arena_defs)
  have n1: "(5::nat) \<noteq> 7" and n2: "(5::nat) \<noteq> 6" and n3: "(6::nat) \<noteq> 5"
    by simp_all
  note t1 = scope_rewinds_once [where w = scoped_world and a = 1 and s = 5
      and ops = "[Allocate 4 1, Make 2 2]" and ?s1.0 = 5 and ?s2.0 = 7
      and ?ops1.0 = "[Allocate 1 1]" and ?ops2.0 = "[MakeArray 4 4 1]"
      and ?ops3.0 = "[TryAllocate 2 1]" and this = 5 and other = 6]
  note t2 = scope_rewinds_once [where w = scoped_world and a = 1 and s = 5
      and ops = "[Allocate 4 1, Make 2 2]" and ?s1.0 = 5 and ?s2.0 = 7
      and ?ops1.0 = "[Allocate 1 1]" and ?ops2.0 = "[MakeArray 4 4 1]"
      and ?ops3.0 = "[TryAllocate 2 1]" and this = 6 and other = 5]
  show ?thesis
    using i n1 n2 n3 t1 t2 by blast
qed

section \<open>Moving an arena\<close>

text \<open>
  C7, as the code has it. After a move construction, or a move assignment between two
  distinct arenas, the destination has the source's former \<open>used()\<close> and
  \<open>capacity()\<close>, and the source has \<open>used() == 0\<close> and \<open>capacity() == 0\<close>: its
  buffer was moved out. Assigning an arena to itself changes nothing.
\<close>

theorem arena_move:
  "(this \<noteq> other \<longrightarrow>
      used (arenas (Arena_move_ctor w this other) this) = used (arenas w other)
      \<and> capacity (arenas (Arena_move_ctor w this other) this) = capacity (arenas w other)
      \<and> used (arenas (Arena_move_ctor w this other) other) = 0
      \<and> capacity (arenas (Arena_move_ctor w this other) other) = 0
      \<and> used (arenas (Arena_move_assign w this other) this) = used (arenas w other)
      \<and> capacity (arenas (Arena_move_assign w this other) this) = capacity (arenas w other)
      \<and> used (arenas (Arena_move_assign w this other) other) = 0
      \<and> capacity (arenas (Arena_move_assign w this other) other) = 0)
   \<and> Arena_move_assign w this this = w"
  by (simp add: Arena_move_ctor_def Arena_move_assign_def moved_from_buffer_def Let_def
      used_def capacity_def)

text \<open>
  Arena 1 of the example store, moved to a new arena 2.
\<close>

theorem arena_move_witness:
  "used (arenas (Arena_move_ctor example_world 2 1) 2) = used (arenas example_world 1)
   \<and> capacity (arenas (Arena_move_ctor example_world 2 1) 2) = capacity (arenas example_world 1)
   \<and> used (arenas (Arena_move_ctor example_world 2 1) 1) = 0
   \<and> capacity (arenas (Arena_move_ctor example_world 2 1) 1) = 0
   \<and> used (arenas (Arena_move_assign example_world 2 1) 2) = used (arenas example_world 1)
   \<and> capacity (arenas (Arena_move_assign example_world 2 1) 2) = capacity (arenas example_world 1)
   \<and> used (arenas (Arena_move_assign example_world 2 1) 1) = 0
   \<and> capacity (arenas (Arena_move_assign example_world 2 1) 1) = 0"
proof -
  have h: "(2::nat) \<noteq> 1" by simp
  then show ?thesis
    using arena_move [of 2 1 example_world] by blast
qed

text \<open>
  C7 as stated fails: the capacity of the moved-from arena is not what it was, 16,
  but 0; and an arena move-assigned to itself keeps its 8 used bytes.
\<close>

theorem arena_move_empties_source:
  "capacity (arenas example_world 1) = 16
   \<and> capacity (arenas (Arena_move_ctor example_world 2 1) 1) = 0
   \<and> capacity (arenas (Arena_move_assign example_world 0 1) 1) = 0
   \<and> used (arenas example_world 1) = 8
   \<and> used (arenas (Arena_move_assign example_world 1 1) 1) = 8"
  by (simp add: example_world_def Arena_move_ctor_def Arena_move_assign_def
      moved_from_buffer_def arena_defs)

section \<open>Arrays\<close>

text \<open>
  C9. \<open>make_array<T>(0)\<close> returns the null pointer and leaves the arena, and so
  \<open>used()\<close>, as it was, whatever the size and the alignment of \<open>T\<close>.
\<close>

theorem make_array_zero:
  "make_array a sizeof_T alignof_T 0 = (Inr 0, a)
   \<and> used (snd (make_array a sizeof_T alignof_T 0)) = used a"
  by (simp add: make_array_def)

text \<open>
  C10. For a count other than 0, \<open>make_array\<close> asks \<open>allocate\<close> for
  \<open>sizeof(T) * count\<close> bytes, the product taken modulo \<open>2 ^ 64\<close>. There are an
  arena, a type and a count for which the true product exceeds the capacity and the
  call succeeds all the same, using fewer bytes than the true product: 8-byte elements,
  \<open>2 ^ 61 + 1\<close> of them, in an arena of 64 bytes.
\<close>

theorem make_array_size_wraps:
  "(cnt \<noteq> 0 \<longrightarrow>
      make_array a sizeof_T alignof_T cnt = allocate a (sizeof_T * cnt) alignof_T
      \<and> unat (sizeof_T * cnt) = (unat sizeof_T * unat cnt) mod 2 ^ 64)
   \<and> (\<exists>b s al k p. fst (make_array b s al k) = Inr p \<and> p \<noteq> 0
         \<and> 2 ^ 64 \<le> unat s * unat k
         \<and> unat (capacity b) < unat s * unat k
         \<and> unat (used (snd (make_array b s al k))) < unat s * unat k)"
proof (intro conjI impI)
  assume "cnt \<noteq> 0"
  then show "make_array a sizeof_T alignof_T cnt = allocate a (sizeof_T * cnt) alignof_T"
    by (simp add: make_array_def)
next
  show "unat (sizeof_T * cnt) = (unat sizeof_T * unat cnt) mod 2 ^ 64"
    by (simp add: unat_word_ariths)
next
  have "fst (make_array (Arena_ctor 65536 64) 8 8 2305843009213693953) = Inr 65536
      \<and> (65536 :: size_t) \<noteq> 0
      \<and> 2 ^ 64 \<le> unat (8::size_t) * unat (2305843009213693953::size_t)
      \<and> unat (capacity (Arena_ctor 65536 64))
          < unat (8::size_t) * unat (2305843009213693953::size_t)
      \<and> unat (used (snd (make_array (Arena_ctor 65536 64) 8 8 2305843009213693953)))
          < unat (8::size_t) * unat (2305843009213693953::size_t)"
    by (simp add: arena_defs)
  then show "\<exists>b s al k p. fst (make_array b s al k) = Inr p \<and> p \<noteq> 0
         \<and> 2 ^ 64 \<le> unat s * unat k
         \<and> unat (capacity b) < unat s * unat k
         \<and> unat (used (snd (make_array b s al k))) < unat s * unat k"
    by (intro exI)
qed

text \<open>
  At 8-byte elements and the count \<open>2 ^ 61 + 1\<close>.
\<close>

theorem make_array_size_wraps_witness:
  "make_array (Arena_ctor 65536 64) 8 8 2305843009213693953
      = allocate (Arena_ctor 65536 64) (8 * 2305843009213693953) 8
   \<and> unat (8 * 2305843009213693953 :: size_t)
      = (unat (8 :: size_t) * unat (2305843009213693953 :: size_t)) mod 2 ^ 64"
proof -
  have h: "(2305843009213693953 :: size_t) \<noteq> 0" by simp
  then show ?thesis
    using make_array_size_wraps [of 2305843009213693953 "Arena_ctor 65536 64" 8 8] by blast
qed

end
